theory Spec2Isabelle
  imports Main "HOL-Library.Sublist"
begin

section \<open>Expense tracker: the store, the filter and the add action\<close>

text \<open>
  The program keeps its expenses in one CSV file and goes through pandas for every
  access: \<open>load_expenses\<close> reads the file and coerces two columns, \<open>save_expense\<close>
  appends one record, \<open>remove_expense\<close> loads, drops one label and rewrites the file,
  \<open>filter_expenses\<close> selects rows of a table, and \<open>main\<close> guards the add action.

  The embedding follows the four functions and the add branch of \<open>main\<close> line by line.
  What the pandas calls do is written out as far as the program depends on it:
  \<^item> a file is absent, or holds the header \<open>Description,Amount,Date\<close> and records of
    three fields each, every record on a line of its own (the layout this program
    writes); a field is its text, the quoting of the CSV dialect being a faithful coding
    of field texts. A file of another shape (an empty file, a record with more fields
    than the header, a header without the column Amount or Date) makes \<open>read_csv\<close> or
    the access to the column raise; such a file is not a value of the store;
  \<^item> \<open>read_csv\<close> turns the missing-value markers of pandas into the missing value and
    infers the type of the Description column (numbers, booleans or text);
  \<^item> \<open>to_numeric\<close> and \<open>to_datetime\<close> with \<open>errors="coerce"\<close> read a cell or give the
    missing value. The date form read is the ISO form \<open>YYYY-MM-DD\<close>, the one this
    program writes, within the range of a nanosecond Timestamp; pandas reads further
    spellings of a date, in a form it takes from the first date of the column, and a
    column of booleans as amounts, which the model reads as missing. The statements
    that depend on the value of a date or of an amount are made for tidy stores, whose
    date fields are ISO dates and whose amount fields are short numerals, or markers of
    the missing value;
  \<^item> a float is a finite decimal \<open>m / 10^k\<close> or an infinity, compared exactly; its text
    is its decimal expansion, which reads back as the same number. pandas holds the
    double nearest to the decimal and writes the shortest text of that double; the two
    agree on short decimals (at most 15 digits), and the statements about the value
    read back are made for those;
  \<^item> \<open>drop\<close> removes a label or raises KeyError; \<open>.str.contains\<close> raises
    AttributeError on a column that does not hold text and treats its pattern as a
    regular expression, compiled with the flag IGNORECASE; the compilation and the
    search of the module \<open>re\<close> are a parameter of the model.
\<close>

subsection \<open>Numbers and their text\<close>

text \<open>\<open>Fin m k\<close> is the number \<open>m / 10^k\<close>.\<close>

datatype number = Fin int nat | PosInf | NegInf

fun num_le :: "number \<Rightarrow> number \<Rightarrow> bool" where
  "num_le NegInf b = True"
| "num_le a PosInf = True"
| "num_le PosInf b = False"
| "num_le a NegInf = False"
| "num_le (Fin m j) (Fin n k) = (m * 10 ^ k \<le> n * 10 ^ j)"

definition num_less :: "number \<Rightarrow> number \<Rightarrow> bool" where
  "num_less a b \<longleftrightarrow> \<not> num_le b a"

definition zero :: number where
  "zero = Fin 0 0"

definition is_space :: "char \<Rightarrow> bool" where
  "is_space c \<longleftrightarrow>
     (of_char c :: nat) = 32 \<or> (9 \<le> (of_char c :: nat) \<and> (of_char c :: nat) \<le> 13)"

definition is_digit :: "char \<Rightarrow> bool" where
  "is_digit c \<longleftrightarrow> 48 \<le> (of_char c :: nat) \<and> (of_char c :: nat) \<le> 57"

definition digit_val :: "char \<Rightarrow> nat" where
  "digit_val c = of_char c - 48"

definition digit_char :: "nat \<Rightarrow> char" where
  "digit_char d = char_of (48 + d)"

definition digits_val :: "string \<Rightarrow> nat" where
  "digits_val ds = foldl (\<lambda>a c. 10 * a + digit_val c) 0 ds"

fun show_nat :: "nat \<Rightarrow> string" where
  "show_nat n =
     (if n < 10 then [digit_char n] else show_nat (n div 10) @ [digit_char (n mod 10)])"

declare show_nat.simps [simp del]

definition padded :: "nat \<Rightarrow> nat \<Rightarrow> string" where
  "padded n k = replicate (Suc k - length (show_nat n)) CHR ''0'' @ show_nat n"

definition show_unsigned :: "nat \<Rightarrow> nat \<Rightarrow> string" where
  "show_unsigned n k =
     (let p = padded n k; w = length p - k
      in take w p @ (if k = 0 then [] else CHR ''.'' # drop w p))"

text \<open>The text \<open>to_csv\<close> writes for a number: sign, digits, and \<open>k\<close> decimals.\<close>

fun show_number :: "number \<Rightarrow> string" where
  "show_number (Fin m k) = (if m < 0 then ''-'' else []) @ show_unsigned (nat \<bar>m\<bar>) k"
| "show_number PosInf = ''inf''"
| "show_number NegInf = ''-inf''"

text \<open>
  The numerals the reader accepts: blanks, a sign, digits with an optional point, an
  optional exponent, blanks; the exponent letter is given back when no digit follows it.
\<close>

fun read_sign :: "string \<Rightarrow> bool \<times> string" where
  "read_sign [] = (False, [])"
| "read_sign (c # cs) =
     (if c = CHR ''-'' then (True, cs)
      else if c = CHR ''+'' then (False, cs)
      else (False, c # cs))"

fun read_fraction :: "string \<Rightarrow> string \<times> string" where
  "read_fraction [] = ([], [])"
| "read_fraction (c # cs) =
     (if c = CHR ''.'' then (takeWhile is_digit cs, dropWhile is_digit cs)
      else ([], c # cs))"

fun read_exponent :: "string \<Rightarrow> int \<times> string" where
  "read_exponent [] = (0, [])"
| "read_exponent (c # cs) =
     (if c = CHR ''e'' \<or> c = CHR ''E'' then
        (let (neg, r) = read_sign cs; ds = takeWhile is_digit r
         in if ds = [] then (0, c # cs)
            else ((if neg then - int (digits_val ds) else int (digits_val ds)),
                  dropWhile is_digit r))
      else (0, c # cs))"

definition scale :: "int \<Rightarrow> nat \<Rightarrow> int \<Rightarrow> number" where
  "scale m k e =
     (if e \<le> int k then Fin m (nat (int k - e))
      else Fin (m * 10 ^ nat (e - int k)) 0)"

fun negate :: "number \<Rightarrow> number" where
  "negate (Fin m k) = Fin (- m) k"
| "negate PosInf = NegInf"
| "negate NegInf = PosInf"

definition parse_unsigned :: "string \<Rightarrow> number option" where
  "parse_unsigned s =
     (let whole = takeWhile is_digit s;
          (frac, s3) = read_fraction (dropWhile is_digit s);
          (e, s4) = read_exponent s3
      in if whole @ frac = [] \<or> dropWhile is_space s4 \<noteq> [] then None
         else Some (scale (int (digits_val (whole @ frac))) (length frac) e))"

definition parse_decimal :: "string \<Rightarrow> number option" where
  "parse_decimal s =
     (let (neg, s1) = read_sign (dropWhile is_space s)
      in map_option (if neg then negate else id) (parse_unsigned s1))"

definition lower :: "char \<Rightarrow> char" where
  "lower c = (if 65 \<le> (of_char c :: nat) \<and> (of_char c :: nat) \<le> 90
              then char_of ((of_char c :: nat) + 32) else c)"

definition parse_inf :: "string \<Rightarrow> number option" where
  "parse_inf s =
     (let t = map lower s
      in if t \<in> set [''inf'', ''+inf'', ''infinity'', ''+infinity''] then Some PosInf
         else if t \<in> set [''-inf'', ''-infinity''] then Some NegInf
         else None)"

definition parse_number :: "string \<Rightarrow> number option" where
  "parse_number s =
     (case parse_decimal s of Some n \<Rightarrow> Some n | None \<Rightarrow> parse_inf s)"

text \<open>
  The booleans the reader accepts: the words \<open>true\<close> and \<open>false\<close>, their letters in
  either case.
\<close>

definition parse_bool :: "string \<Rightarrow> bool option" where
  "parse_bool s =
     (let t = map lower s
      in if t = ''true'' then Some True
         else if t = ''false'' then Some False
         else None)"

definition show_bool :: "bool \<Rightarrow> string" where
  "show_bool b = (if b then ''True'' else ''False'')"

subsection \<open>Dates and their text\<close>

text \<open>
  A \<open>datetime.date\<close>, and a Timestamp at midnight of that day. A date is valid when it
  is a day of the calendar that a nanosecond Timestamp can hold.
\<close>

record date =
  year :: nat
  month :: nat
  day :: nat

definition date_le :: "date \<Rightarrow> date \<Rightarrow> bool" where
  "date_le a b \<longleftrightarrow>
     year a < year b \<or>
     (year a = year b \<and> (month a < month b \<or> (month a = month b \<and> day a \<le> day b)))"

definition leap :: "nat \<Rightarrow> bool" where
  "leap y \<longleftrightarrow> (y mod 4 = 0 \<and> y mod 100 \<noteq> 0) \<or> y mod 400 = 0"

definition days_in_month :: "nat \<Rightarrow> nat \<Rightarrow> nat" where
  "days_in_month y m =
     (if m = 2 then (if leap y then 29 else 28)
      else if m = 4 \<or> m = 6 \<or> m = 9 \<or> m = 11 then 30
      else 31)"

definition timestamp_min :: date where
  "timestamp_min = \<lparr>year = 1677, month = 9, day = 22\<rparr>"

definition timestamp_max :: date where
  "timestamp_max = \<lparr>year = 2262, month = 4, day = 11\<rparr>"

definition valid_date :: "date \<Rightarrow> bool" where
  "valid_date d \<longleftrightarrow>
     1 \<le> month d \<and> month d \<le> 12 \<and>
     1 \<le> day d \<and> day d \<le> days_in_month (year d) (month d) \<and>
     date_le timestamp_min d \<and> date_le d timestamp_max"

definition zero_pad :: "nat \<Rightarrow> string \<Rightarrow> string" where
  "zero_pad w s = replicate (w - length s) CHR ''0'' @ s"

definition show_date :: "date \<Rightarrow> string" where
  "show_date d =
     zero_pad 4 (show_nat (year d)) @ ''-'' @ zero_pad 2 (show_nat (month d)) @ ''-'' @
     zero_pad 2 (show_nat (day d))"

definition parse_date :: "string \<Rightarrow> date option" where
  "parse_date s =
     (let y = take 4 s; m = take 2 (drop 5 s); d = drop 8 s
      in if length s = 10 \<and> s ! 4 = CHR ''-'' \<and> s ! 7 = CHR ''-'' \<and>
            list_all is_digit (y @ m @ d)
         then (let t = \<lparr>year = digits_val y, month = digits_val m, day = digits_val d\<rparr>
               in if valid_date t then Some t else None)
         else None)"

subsection \<open>The persisted file and the tables read from it\<close>

text \<open>
  A record of the file is the text of its three fields. The store is \<open>None\<close> when
  \<open>expenses.csv\<close> does not exist, and otherwise the records below the header.
\<close>

type_synonym line = "string \<times> string \<times> string"

type_synonym store = "line list option"

definition schema :: "string list" where
  "schema = [''Description'', ''Amount'', ''Date'']"

text \<open>The field texts that \<open>read_csv\<close> takes for a missing value by default.\<close>

definition na_values :: "string list" where
  "na_values =
     [[], ''#N/A'', ''#N/A N/A'', ''#NA'', ''-1.#IND'', ''-1.#QNAN'', ''-NaN'', ''-nan'',
      ''1.#IND'', ''1.#QNAN'', ''<NA>'', ''N/A'', ''NA'', ''NULL'', ''NaN'', ''None'',
      ''n/a'', ''nan'', ''null'']"

definition is_na :: "string \<Rightarrow> bool" where
  "is_na s \<longleftrightarrow> s \<in> set na_values"

definition na_filter :: "string \<Rightarrow> string option" where
  "na_filter s = (if is_na s then None else Some s)"

text \<open>
  A value of the Description column: a \<open>str\<close>, a number or a boolean (when the reader
  inferred such a column), or the missing value. The other two columns hold a number
  or a date after their coercion, \<open>None\<close> being NaN and NaT.
\<close>

datatype cell = Text string | Number number | Truth bool | Missing

datatype kind = AllMissing | Numbers | Booleans | Texts

datatype dtype = Object | Numeric | Boolean

record row =
  Description :: cell
  Amount :: "number option"
  Date :: "date option"

text \<open>A DataFrame: its column names, the dtype of Description, and its rows by label.\<close>

record 'r frame =
  columns :: "string list"
  desc_dtype :: dtype
  entries :: "(int \<times> 'r) list"

datatype error = KeyError | AttributeError | ReError

text \<open>
  Type inference of the reader on one column: the fields that are not missing are all
  numerals, or all booleans, or the column is text. A column of missing values only is
  a float column; a boolean column with a missing value is an object column, as is a
  column without any row.
\<close>

definition column_kind :: "string list \<Rightarrow> kind" where
  "column_kind col =
     (let toks = filter (\<lambda>s. \<not> is_na s) col
      in if toks = [] then AllMissing
         else if list_all (\<lambda>s. parse_number s \<noteq> None) toks then Numbers
         else if list_all (\<lambda>s. parse_bool s \<noteq> None) toks then Booleans
         else Texts)"

definition column_dtype :: "string list \<Rightarrow> dtype" where
  "column_dtype col =
     (if col = [] then Object
      else case column_kind col of
             AllMissing \<Rightarrow> Numeric
           | Numbers \<Rightarrow> Numeric
           | Booleans \<Rightarrow> (if list_ex is_na col then Object else Boolean)
           | Texts \<Rightarrow> Object)"

definition read_cell :: "kind \<Rightarrow> string \<Rightarrow> cell" where
  "read_cell k s =
     (if is_na s then Missing
      else case k of
             Numbers \<Rightarrow> (case parse_number s of Some n \<Rightarrow> Number n | None \<Rightarrow> Text s)
           | Booleans \<Rightarrow> (case parse_bool s of Some b \<Rightarrow> Truth b | None \<Rightarrow> Text s)
           | _ \<Rightarrow> Text s)"

text \<open>
  \<open>pd.read_csv("expenses.csv")\<close>: labels \<open>0, 1, ...\<close>, the Description column typed, the
  other two columns as text with the missing-value markers taken out (the coercions
  of \<open>load_expenses\<close> read them next).
\<close>

definition read_csv :: "line list \<Rightarrow> (cell \<times> string option \<times> string option) frame" where
  "read_csv lines =
     (let col = map fst lines; k = column_kind col
      in \<lparr>columns = schema,
          desc_dtype = column_dtype col,
          entries = zip (map int [0..<length lines])
                        (map (\<lambda>(d, a, t). (read_cell k d, na_filter a, na_filter t)) lines)\<rparr>)"

definition to_numeric :: "string option \<Rightarrow> number option" where
  "to_numeric c = (case c of None \<Rightarrow> None | Some s \<Rightarrow> parse_number s)"

definition to_datetime :: "string option \<Rightarrow> date option" where
  "to_datetime c = (case c of None \<Rightarrow> None | Some s \<Rightarrow> parse_date s)"

definition load_expenses :: "store \<Rightarrow> row frame" where
  "load_expenses st =
     (case st of
        Some lines \<Rightarrow>
          (let expenses = read_csv lines
           in \<lparr>columns = columns expenses,
               desc_dtype = desc_dtype expenses,
               entries = map (\<lambda>(i, d, a, t).
                                (i, \<lparr>Description = d, Amount = to_numeric a,
                                     Date = to_datetime t\<rparr>))
                             (entries expenses)\<rparr>)
      | None \<Rightarrow> \<lparr>columns = schema, desc_dtype = Object, entries = []\<rparr>)"

text \<open>
  \<open>to_csv\<close> with \<open>index=False\<close>: one record per row, labels left out, a missing value
  as the empty field. The header is part of every file of the model.
\<close>

fun show_cell :: "cell \<Rightarrow> string" where
  "show_cell (Text s) = s"
| "show_cell (Number n) = show_number n"
| "show_cell (Truth b) = show_bool b"
| "show_cell Missing = []"

definition show_amount :: "number option \<Rightarrow> string" where
  "show_amount a = (case a of None \<Rightarrow> [] | Some n \<Rightarrow> show_number n)"

definition show_stamp :: "date option \<Rightarrow> string" where
  "show_stamp t = (case t of None \<Rightarrow> [] | Some d \<Rightarrow> show_date d)"

definition show_row :: "row \<Rightarrow> line" where
  "show_row r = (show_cell (Description r), show_amount (Amount r), show_stamp (Date r))"

definition to_csv :: "row frame \<Rightarrow> line list" where
  "to_csv f = map (\<lambda>(i, r). show_row r) (entries f)"

text \<open>
  \<open>save_expense\<close>: one new record, appended when the file exists, written below a new
  header otherwise.
\<close>

definition save_expense :: "string \<Rightarrow> number \<Rightarrow> date \<Rightarrow> store \<Rightarrow> store" where
  "save_expense description amount date st =
     (let new_data = (description, show_number amount, show_date date)
      in case st of
           Some lines \<Rightarrow> Some (lines @ [new_data])
         | None \<Rightarrow> Some [new_data])"

text \<open>\<open>DataFrame.drop(index)\<close>: by label; a label that is not in the index is a KeyError.\<close>

definition drop_frame :: "'r frame \<Rightarrow> int \<Rightarrow> error + 'r frame" where
  "drop_frame f index =
     (if index \<in> set (map fst (entries f))
      then Inr (f\<lparr>entries := filter (\<lambda>(l, r). l \<noteq> index) (entries f)\<rparr>)
      else Inl KeyError)"

text \<open>
  \<open>remove_expense\<close>: the result is the exception raised, if any, and the store left
  behind; the file is rewritten only after \<open>drop\<close> has returned.
\<close>

definition remove_expense :: "int \<Rightarrow> store \<Rightarrow> error option \<times> store" where
  "remove_expense index st =
     (let expenses = load_expenses st
      in case drop_frame expenses index of
           Inl e \<Rightarrow> (Some e, st)
         | Inr expenses' \<Rightarrow> (None, Some (to_csv expenses')))"

subsection \<open>The filter\<close>

text \<open>Boolean indexing \<open>df[mask]\<close>: the rows whose mask is true, with their labels.\<close>

definition select :: "('r \<Rightarrow> bool) \<Rightarrow> 'r frame \<Rightarrow> 'r frame" where
  "select p f = f\<lparr>entries := filter (\<lambda>(l, r). p r) (entries f)\<rparr>"

text \<open>
  The \<open>.str\<close> accessor exists on an object column whose values, the missing ones
  apart, are not all numbers and not all booleans.
\<close>

definition present :: "cell list \<Rightarrow> cell list" where
  "present cs = filter (\<lambda>c. c \<noteq> Missing) cs"

definition is_number :: "cell \<Rightarrow> bool" where
  "is_number c = (case c of Number n \<Rightarrow> True | _ \<Rightarrow> False)"

definition is_truth :: "cell \<Rightarrow> bool" where
  "is_truth c = (case c of Truth b \<Rightarrow> True | _ \<Rightarrow> False)"

definition str_accessor :: "dtype \<Rightarrow> cell list \<Rightarrow> bool" where
  "str_accessor t cs \<longleftrightarrow>
     t = Object \<and>
     (present cs = [] \<or>
      \<not> (list_all is_number (present cs) \<or> list_all is_truth (present cs)))"

text \<open>
  \<open>column.str.contains(pat, case=False, na=False)\<close>: the accessor first, then the
  pattern, then the test applied to each value, which is false on a value that is not
  a \<open>str\<close>. The pattern is a regular expression (\<open>regex=True\<close> is the default of
  pandas). \<open>re_compile\<close> stands for \<open>re.compile\<close> of Python with the flag IGNORECASE:
  it gives the error of an ill-formed pattern or the search of a well-formed one. It
  is a parameter of the model, and every statement about the filter holds for every
  value of it.
\<close>

definition match_cell :: "(string \<Rightarrow> bool) \<Rightarrow> cell \<Rightarrow> bool" where
  "match_cell search c = (case c of Text s \<Rightarrow> search s | _ \<Rightarrow> False)"

definition str_contains ::
  "(string \<Rightarrow> error + (string \<Rightarrow> bool)) \<Rightarrow> dtype \<Rightarrow> cell list \<Rightarrow> string
     \<Rightarrow> error + (cell \<Rightarrow> bool)"
where
  "str_contains re_compile t cs pat =
     (if \<not> str_accessor t cs then Inl AttributeError
      else case re_compile pat of
             Inl e \<Rightarrow> Inl e
           | Inr search \<Rightarrow> Inr (match_cell search))"

definition amount_le :: "number option \<Rightarrow> number \<Rightarrow> bool" where
  "amount_le a t = (case a of None \<Rightarrow> False | Some n \<Rightarrow> num_le n t)"

definition date_between :: "date option \<Rightarrow> date \<Rightarrow> date \<Rightarrow> bool" where
  "date_between t start_date end_date =
     (case t of None \<Rightarrow> False | Some d \<Rightarrow> date_le start_date d \<and> date_le d end_date)"

definition filter_expenses ::
  "(string \<Rightarrow> error + (string \<Rightarrow> bool)) \<Rightarrow> row frame \<Rightarrow> string \<Rightarrow> number \<Rightarrow> date list
     \<Rightarrow> error + row frame"
where
  "filter_expenses re_compile expenses description_filter amount_filter date_range =
     (case (if description_filter \<noteq> [] then
              (case str_contains re_compile (desc_dtype expenses)
                      (map (\<lambda>(l, r). Description r) (entries expenses)) description_filter of
                 Inl e \<Rightarrow> Inl e
               | Inr matches \<Rightarrow> Inr (select (\<lambda>r. matches (Description r)) expenses))
            else Inr expenses) of
        Inl e \<Rightarrow> Inl e
      | Inr by_description \<Rightarrow>
          (let by_amount =
                 (if num_less zero amount_filter
                  then select (\<lambda>r. amount_le (Amount r) amount_filter) by_description
                  else by_description);
               by_date =
                 (if date_range \<noteq> [] \<and> length date_range = 2
                  then select (\<lambda>r. date_between (Date r) (date_range ! 0) (date_range ! 1))
                         by_amount
                  else by_amount)
           in Inr by_date))"

subsection \<open>The add action of the page\<close>

text \<open>
  The branch of \<open>main\<close> behind the button "Add Expense": what it shows and the store it
  leaves.
\<close>

datatype shown = Success string | Failure string | Dataframe "row frame"

definition add_expense :: "string \<Rightarrow> number \<Rightarrow> date \<Rightarrow> store \<Rightarrow> shown list \<times> store" where
  "add_expense description amount date st =
     (if description \<noteq> [] \<and> num_less zero amount then
        (let st' = save_expense description amount date st
         in ([Success (''Added: '' @ description @ '' - '' @ show_number amount @ '' on '' @
                       show_date date),
              Dataframe (load_expenses st')], st'))
      else ([Failure ''Please enter a valid description and amount.''], st))"

subsection \<open>Notions used in the statements\<close>

text \<open>
  The description texts of the store; the rows and the labels of a table; the reading of
  one record under a column type; a description that the reader keeps as the text it
  is; and the table left when the position \<open>i\<close> is taken out.
\<close>

definition descriptions :: "store \<Rightarrow> string list" where
  "descriptions st = (case st of None \<Rightarrow> [] | Some lines \<Rightarrow> map fst lines)"

definition rows :: "'r frame \<Rightarrow> 'r list" where
  "rows f = map snd (entries f)"


definition read_line :: "kind \<Rightarrow> line \<Rightarrow> row" where
  "read_line k l =
     (case l of (d, a, t) \<Rightarrow>
        \<lparr>Description = read_cell k d, Amount = to_numeric (na_filter a),
         Date = to_datetime (na_filter t)\<rparr>)"

definition reads_as_text :: "string \<Rightarrow> bool" where
  "reads_as_text s \<longleftrightarrow> \<not> is_na s \<and> parse_number s = None \<and> parse_bool s = None"

text \<open>
  A short decimal has at most 15 digits, 14 of them at most behind the point: pandas
  reads its text as the float nearest to it, and the text of that float gives the same
  decimal. A short numeral is a field of at most 17 characters that reads as a short
  decimal. A store is tidy when every amount field is a missing-value marker or a short
  numeral and every date field is a missing-value marker or the ISO text of a valid
  date: this is the layout that the program writes for such amounts and dates.
\<close>

definition short :: "number \<Rightarrow> bool" where
  "short n = (case n of Fin m k \<Rightarrow> \<bar>m\<bar> < 10 ^ 15 \<and> k \<le> 14 | _ \<Rightarrow> False)"

definition short_numeral :: "string \<Rightarrow> bool" where
  "short_numeral s \<longleftrightarrow>
     length s \<le> 17 \<and> (case parse_number s of Some n \<Rightarrow> short n | None \<Rightarrow> False)"

definition tidy_line :: "line \<Rightarrow> bool" where
  "tidy_line l =
     (case l of (d, a, t) \<Rightarrow>
        (is_na a \<or> short_numeral a) \<and> (is_na t \<or> parse_date t \<noteq> None))"

definition tidy :: "store \<Rightarrow> bool" where
  "tidy st = (case st of None \<Rightarrow> True | Some lines \<Rightarrow> list_all tidy_line lines)"

definition without :: "nat \<Rightarrow> 'a list \<Rightarrow> 'a list" where
  "without i xs = take i xs @ drop (Suc i) xs"

text \<open>The rows that a call of \<open>filter_expenses\<close> keeps, given the test on descriptions.\<close>

definition keeps ::
  "(cell \<Rightarrow> bool) \<Rightarrow> string \<Rightarrow> number \<Rightarrow> date list \<Rightarrow> row \<Rightarrow> bool" where
  "keeps matches description_filter amount_filter date_range r \<longleftrightarrow>
     (description_filter \<noteq> [] \<longrightarrow> matches (Description r)) \<and>
     (num_less zero amount_filter \<longrightarrow> amount_le (Amount r) amount_filter) \<and>
     (date_range \<noteq> [] \<and> length date_range = 2 \<longrightarrow>
        date_between (Date r) (date_range ! 0) (date_range ! 1))"


section \<open>Properties\<close>

subsection \<open>Text of numbers and dates reads back\<close>

lemma is_digit_digit_char: "d < 10 \<Longrightarrow> is_digit (digit_char d)"
  by (simp add: is_digit_def digit_char_def)

lemma digit_val_digit_char: "d < 10 \<Longrightarrow> digit_val (digit_char d) = d"
  by (simp add: digit_val_def digit_char_def)

lemma digits_val_snoc: "digits_val (ds @ [c]) = 10 * digits_val ds + digit_val c"
  by (simp add: digits_val_def)

lemma digits_val_show_nat: "digits_val (show_nat n) = n"
proof (induction n rule: show_nat.induct)
  case (1 n)
  show ?case
  proof (cases "n < 10")
    case True
    then show ?thesis by (simp add: show_nat.simps [of n] digits_val_def digit_val_digit_char)
  next
    case False
    with 1 show ?thesis
      by (simp add: show_nat.simps [of n] digits_val_snoc digit_val_digit_char)
  qed
qed

lemma digits_show_nat: "\<forall>c \<in> set (show_nat n). is_digit c"
proof (induction n rule: show_nat.induct)
  case (1 n)
  show ?case
  proof (cases "n < 10")
    case True
    then show ?thesis by (simp add: show_nat.simps [of n] is_digit_digit_char)
  next
    case False
    with 1 show ?thesis
      by (simp add: show_nat.simps [of n] is_digit_digit_char)
  qed
qed

lemma show_nat_nonempty: "show_nat n \<noteq> []"
  by (subst show_nat.simps) simp

lemma takeWhile_all: "\<forall>c \<in> set xs. P c \<Longrightarrow> takeWhile P xs = xs"
  by (induction xs) auto

lemma takeWhile_stop: "\<forall>c \<in> set xs. P c \<Longrightarrow> \<not> P y \<Longrightarrow> takeWhile P (xs @ y # ys) = xs"
  by (induction xs) auto

lemma dropWhile_stop: "\<forall>c \<in> set xs. P c \<Longrightarrow> \<not> P y \<Longrightarrow> dropWhile P (xs @ y # ys) = y # ys"
  by (induction xs) auto

lemma dropWhile_all: "\<forall>c \<in> set xs. P c \<Longrightarrow> dropWhile P xs = []"
  by (induction xs) auto

lemma digits_val_zeros: "digits_val (replicate n CHR ''0'' @ ds) = digits_val ds"
  by (induction n) (simp_all add: digits_val_def digit_val_def)

lemma not_digit_dot: "\<not> is_digit CHR ''.''"
  by (simp add: is_digit_def)

lemma is_digit_zero: "is_digit CHR ''0''"
  by (simp add: is_digit_def)

lemma digit_not_sign: "is_digit c \<Longrightarrow> c \<noteq> CHR ''-'' \<and> c \<noteq> CHR ''+'' \<and> \<not> is_space c"
  by (auto simp: is_digit_def is_space_def)

lemma parse_unsigned_whole:
  assumes w: "w \<noteq> []" "\<forall>c \<in> set w. is_digit c"
  shows "parse_unsigned w = Some (Fin (int (digits_val w)) 0)"
proof -
  have 3: "takeWhile is_digit w = w" using w by (simp add: takeWhile_all)
  have 4: "dropWhile is_digit w = []" using w by (simp add: dropWhile_all)
  show ?thesis
    using w by (simp add: parse_unsigned_def 3 4 scale_def)
qed

lemma parse_unsigned_point:
  assumes w: "w \<noteq> []" "\<forall>c \<in> set w. is_digit c" and f: "\<forall>c \<in> set f. is_digit c"
  shows "parse_unsigned (w @ CHR ''.'' # f) = Some (Fin (int (digits_val (w @ f))) (length f))"
proof -
  let ?s = "w @ CHR ''.'' # f"
  have 3: "takeWhile is_digit ?s = w"
    using w by (simp add: takeWhile_stop not_digit_dot)
  have 4: "dropWhile is_digit ?s = CHR ''.'' # f"
    using w by (simp add: dropWhile_stop not_digit_dot)
  have 5: "read_fraction (CHR ''.'' # f) = (f, [])"
    using f by (simp add: dropWhile_all takeWhile_all)
  show ?thesis
    unfolding parse_unsigned_def 3 4 5 using w by (simp add: scale_def)
qed

lemma parse_decimal_digit:
  assumes "is_digit c"
  shows "parse_decimal (c # cs) = parse_unsigned (c # cs)"
  using digit_not_sign [OF assms] by (simp add: parse_decimal_def option.map_id)

lemma parse_decimal_minus:
  assumes "is_digit c"
  shows "parse_decimal (CHR ''-'' # c # cs) = map_option negate (parse_unsigned (c # cs))"
  by (simp add: parse_decimal_def is_space_def)


lemma padded_digits: "\<forall>c \<in> set (padded n k). is_digit c"
  using digits_show_nat [of n] by (auto simp: padded_def is_digit_zero)

lemma padded_val: "digits_val (padded n k) = n"
  by (simp add: padded_def digits_val_zeros digits_val_show_nat)

lemma padded_length: "k < length (padded n k)"
  by (simp add: padded_def)

lemma parse_show_unsigned: "parse_unsigned (show_unsigned n k) = Some (Fin (int n) k)"
proof -
  let ?p = "padded n k"
  let ?w = "take (length ?p - k) ?p" and ?f = "drop (length ?p - k) ?p"
  have w: "?w \<noteq> []" "\<forall>c \<in> set ?w. is_digit c"
    using padded_length [of k n] padded_digits [of n k] by (auto dest: in_set_takeD)
  have f: "\<forall>c \<in> set ?f. is_digit c" "length ?f = k"
    using padded_length [of k n] padded_digits [of n k] by (auto dest: in_set_dropD)
  show ?thesis
  proof (cases "k = 0")
    case True
    have "?p \<noteq> []" using padded_length [of k n] by auto
    then have "parse_unsigned ?p = Some (Fin (int n) 0)"
      using parse_unsigned_whole [of ?p] padded_digits [of n k] by (simp add: padded_val)
    then show ?thesis using True by (simp add: show_unsigned_def Let_def)
  next
    case False
    have "parse_unsigned (?w @ CHR ''.'' # ?f) = Some (Fin (int n) k)"
      using parse_unsigned_point [OF w f(1)] f(2) by (simp add: padded_val)
    then show ?thesis using False by (simp add: show_unsigned_def Let_def)
  qed
qed

lemma show_unsigned_head: "\<exists>c cs. show_unsigned n k = c # cs \<and> is_digit c"
proof -
  let ?p = "padded n k"
  obtain c cs where tk: "take (length ?p - k) ?p = c # cs"
    using padded_length [of k n] by (cases "take (length ?p - k) ?p") auto
  then have "c \<in> set ?p" by (metis in_set_takeD list.set_intros(1))
  then have "is_digit c" using padded_digits by blast
  then show ?thesis using tk by (simp add: show_unsigned_def Let_def)
qed

lemma parse_show_decimal: "parse_decimal (show_number (Fin m k)) = Some (Fin m k)"
proof -
  obtain c cs where s: "show_unsigned (nat \<bar>m\<bar>) k = c # cs" "is_digit c"
    using show_unsigned_head by blast
  have u: "parse_unsigned (c # cs) = Some (Fin \<bar>m\<bar> k)"
    using parse_show_unsigned [of "nat \<bar>m\<bar>" k] s(1) by simp
  show ?thesis
  proof (cases "m < 0")
    case True
    then show ?thesis
      using parse_decimal_minus [OF s(2), of cs] s(1) u by simp
  next
    case False
    then show ?thesis
      using parse_decimal_digit [OF s(2), of cs] s(1) u by simp
  qed
qed

lemma parse_show_number: "parse_number (show_number n) = Some n"
proof (cases n)
  case (Fin m k)
  then show ?thesis by (simp add: parse_number_def parse_show_decimal del: show_number.simps)
next
  case PosInf
  have "parse_number ''inf'' = Some PosInf" by code_simp
  then show ?thesis using PosInf by simp
next
  case NegInf
  have "parse_number ''-inf'' = Some NegInf" by code_simp
  then show ?thesis using NegInf by simp
qed

lemma length_show_nat: "0 < k \<Longrightarrow> n < 10 ^ k \<Longrightarrow> length (show_nat n) \<le> k"
proof (induction n arbitrary: k rule: show_nat.induct)
  case (1 n)
  show ?case
  proof (cases "n < 10")
    case True
    then show ?thesis using 1(2) by (simp add: show_nat.simps [of n])
  next
    case False
    obtain j where kj: "k = Suc j" using 1(2) by (cases k) auto
    have "0 < j" using False 1(3) kj by (cases j) auto
    with kj have k: "k = Suc j" "0 < j" by simp_all
    then have "n div 10 < 10 ^ j" using 1(3) by (simp add: less_mult_imp_div_less mult.commute)
    then have "length (show_nat (n div 10)) \<le> j" using 1(1) [OF False k(2)] by simp
    then show ?thesis using False k by (simp add: show_nat.simps [of n])
  qed
qed

lemma zero_pad_length: "length s \<le> w \<Longrightarrow> length (zero_pad w s) = w"
  by (simp add: zero_pad_def)

lemma zero_pad_val: "digits_val (zero_pad w s) = digits_val s"
  by (simp add: zero_pad_def digits_val_zeros)

lemma zero_pad_digits: "\<forall>c \<in> set s. is_digit c \<Longrightarrow> \<forall>c \<in> set (zero_pad w s). is_digit c"
  by (auto simp: zero_pad_def is_digit_zero)

lemma parse_date_parts:
  assumes "length y = 4" "length m = 2" "length d = 2"
    and "\<forall>c \<in> set (y @ m @ d). is_digit c"
  shows "parse_date (y @ ''-'' @ m @ ''-'' @ d) =
         (let t = \<lparr>year = digits_val y, month = digits_val m, day = digits_val d\<rparr>
          in if valid_date t then Some t else None)"
  using assms by (simp add: parse_date_def nth_append list_all_iff Let_def)

lemma valid_date_bounds:
  "valid_date d \<Longrightarrow> year d < 10 ^ 4 \<and> month d < 10 ^ 2 \<and> day d < 10 ^ 2"
  by (auto simp: valid_date_def date_le_def timestamp_max_def days_in_month_def split: if_splits)

lemma parse_show_date:
  assumes "valid_date d"
  shows "parse_date (show_date d) = Some d"
proof -
  let ?y = "zero_pad 4 (show_nat (year d))" and ?m = "zero_pad 2 (show_nat (month d))"
    and ?d = "zero_pad 2 (show_nat (day d))"
  have b: "year d < 10 ^ 4" "month d < 10 ^ 2" "day d < 10 ^ 2"
    using valid_date_bounds [OF assms] by simp_all
  have len: "length ?y = 4" "length ?m = 2" "length ?d = 2"
    using b by (simp_all add: zero_pad_length length_show_nat)
  have dig: "\<forall>c \<in> set (?y @ ?m @ ?d). is_digit c"
    using zero_pad_digits [OF digits_show_nat] by auto
  have val: "digits_val ?y = year d" "digits_val ?m = month d" "digits_val ?d = day d"
    by (simp_all add: zero_pad_val digits_val_show_nat)
  have rec: "\<lparr>year = year d, month = month d, day = day d\<rparr> = d" by (cases d) simp
  have "parse_date (show_date d) =
        (let t = \<lparr>year = year d, month = month d, day = day d\<rparr>
         in if valid_date t then Some t else None)"
    using parse_date_parts [OF len dig] by (simp add: show_date_def val)
  then show ?thesis unfolding rec using assms by simp
qed

lemma length_show_date: "valid_date d \<Longrightarrow> length (show_date d) = 10"
  using valid_date_bounds [of d]
  by (simp add: show_date_def zero_pad_length length_show_nat)

lemma parse_date_valid: "parse_date s = Some d \<Longrightarrow> valid_date d"
  by (auto simp: parse_date_def Let_def split: if_splits)

lemma is_na_length: "is_na s \<Longrightarrow> length s \<le> 8"
  by (auto simp: is_na_def na_values_def)

lemma not_na_show_date: "valid_date d \<Longrightarrow> \<not> is_na (show_date d)"
  using is_na_length [of "show_date d"] length_show_date [of d] by auto

lemma is_na_chars:
  "is_na s \<Longrightarrow> s = [] \<or> (\<exists>c \<in> set s. \<not> is_digit c \<and> c \<noteq> CHR ''-'' \<and> c \<noteq> CHR ''.'')"
  by (auto simp: is_na_def na_values_def is_digit_def)

lemma show_unsigned_chars: "c \<in> set (show_unsigned n k) \<Longrightarrow> is_digit c \<or> c = CHR ''.''"
  using padded_digits [of n k]
  by (auto simp: show_unsigned_def Let_def split: if_splits dest: in_set_takeD in_set_dropD)

lemma not_na_show_number: "\<not> is_na (show_number n)"
proof (cases n)
  case (Fin m k)
  obtain c cs where s: "show_unsigned (nat \<bar>m\<bar>) k = c # cs"
    using show_unsigned_head by blast
  have "show_number n \<noteq> []" using Fin s by simp
  moreover have "\<forall>c \<in> set (show_number n). is_digit c \<or> c = CHR ''-'' \<or> c = CHR ''.''"
    using Fin show_unsigned_chars by auto
  ultimately show ?thesis using is_na_chars [of "show_number n"] by blast
next
  case PosInf
  then show ?thesis by (simp add: is_na_def na_values_def)
next
  case NegInf
  then show ?thesis by (simp add: is_na_def na_values_def)
qed

lemma is_na_Nil: "is_na []"
  by (simp add: is_na_def na_values_def)

lemma to_numeric_show: "to_numeric (na_filter (show_amount a)) = a"
  by (cases a)
     (simp_all add: to_numeric_def na_filter_def show_amount_def not_na_show_number
        parse_show_number is_na_Nil)

lemma to_datetime_show:
  "(\<forall>d. t = Some d \<longrightarrow> valid_date d) \<Longrightarrow> to_datetime (na_filter (show_stamp t)) = t"
  by (cases t)
     (simp_all add: to_datetime_def na_filter_def show_stamp_def not_na_show_date
        parse_show_date is_na_Nil)

subsection \<open>The add action\<close>

text \<open>
  C4. The add action writes a record only when the description is not empty and the
  amount is greater than 0. With an empty description or an amount that is at most 0
  it shows the validation failure and nothing else, writes nothing and leaves the store
  as it was; otherwise the store it leaves is the one \<open>save_expense\<close> writes, and the
  page shows the success message and the reloaded table.
\<close>

theorem add_expense_validates:
  "(description = [] \<or> num_le amount zero \<longrightarrow>
      add_expense description amount date st =
        ([Failure ''Please enter a valid description and amount.''], st)) \<and>
   (description \<noteq> [] \<and> num_less zero amount \<longrightarrow>
      snd (add_expense description amount date st) = save_expense description amount date st \<and>
      (\<exists>msg. fst (add_expense description amount date st) =
         [Success msg, Dataframe (load_expenses (save_expense description amount date st))])) \<and>
   (snd (add_expense description amount date st) \<noteq> st \<longrightarrow>
      description \<noteq> [] \<and> num_less zero amount)"
  by (simp add: add_expense_def num_less_def Let_def)

theorem add_expense_validates_witness:
  "num_le (Fin 0 0) zero \<and>
   add_expense ''Taxi'' (Fin 0 0) \<lparr>year = 2024, month = 1, day = 2\<rparr>
     (Some [(''Coffee'', ''4.5'', ''2024-01-01'')]) =
     ([Failure ''Please enter a valid description and amount.''],
      Some [(''Coffee'', ''4.5'', ''2024-01-01'')]) \<and>
   ''Taxi'' \<noteq> [] \<and> num_less zero (Fin 125 1) \<and>
   snd (add_expense ''Taxi'' (Fin 125 1) \<lparr>year = 2024, month = 1, day = 2\<rparr>
     (Some [(''Coffee'', ''4.5'', ''2024-01-01'')])) =
     save_expense ''Taxi'' (Fin 125 1) \<lparr>year = 2024, month = 1, day = 2\<rparr>
       (Some [(''Coffee'', ''4.5'', ''2024-01-01'')]) \<and>
   snd (add_expense ''Taxi'' (Fin 125 1) \<lparr>year = 2024, month = 1, day = 2\<rparr>
     (Some [(''Coffee'', ''4.5'', ''2024-01-01'')])) \<noteq> Some [(''Coffee'', ''4.5'', ''2024-01-01'')]"
  using add_expense_validates [of "''Taxi''" "Fin 0 0" "\<lparr>year = 2024, month = 1, day = 2\<rparr>"
      "Some [(''Coffee'', ''4.5'', ''2024-01-01'')]"]
    add_expense_validates [of "''Taxi''" "Fin 125 1" "\<lparr>year = 2024, month = 1, day = 2\<rparr>"
      "Some [(''Coffee'', ''4.5'', ''2024-01-01'')]"]
  by (simp add: zero_def num_less_def save_expense_def)

subsection \<open>Loading, removing\<close>

lemma zip_range_snoc:
  "zip (map int [0..<Suc (length xs)]) (xs @ [x]) =
   zip (map int [0..<length xs]) xs @ [(int (length xs), x)]"
  by simp

lemma entries_load_Some:
  "entries (load_expenses (Some lines)) =
   zip (map int [0..<length lines]) (map (read_line (column_kind (map fst lines))) lines)"
proof -
  have "map (\<lambda>(i, d, a, t). (i, \<lparr>Description = d, Amount = to_numeric a, Date = to_datetime t\<rparr>))
          (zip is (map (\<lambda>(d, a, t). (read_cell k d, na_filter a, na_filter t)) ls)) =
        zip is (map (read_line k) ls)" for "is" :: "int list" and k ls
    by (induction "is" ls rule: list_induct2') (auto simp: read_line_def)
  then show ?thesis
    by (simp add: load_expenses_def read_csv_def Let_def)
qed

lemma entries_load_None: "entries (load_expenses None) = []"
  by (simp add: load_expenses_def)

lemma rows_load_Some:
  "rows (load_expenses (Some lines)) = map (read_line (column_kind (map fst lines))) lines"
  by (simp add: rows_def entries_load_Some)


lemma length_entries_load:
  "length (entries (load_expenses st)) = (case st of None \<Rightarrow> 0 | Some lines \<Rightarrow> length lines)"
  by (cases st) (simp_all add: entries_load_Some entries_load_None)

lemma filter_label:
  "map snd (filter (\<lambda>(l, r). l \<noteq> int i) (zip (map int [0..<length xs]) xs)) = without i xs"
proof (induction xs rule: rev_induct)
  case Nil
  then show ?case by (simp add: without_def)
next
  case (snoc x xs)
  have "zip (map int [0..<length (xs @ [x])]) (xs @ [x]) =
        zip (map int [0..<length xs]) xs @ [(int (length xs), x)]"
    by simp
  then have step:
    "map snd (filter (\<lambda>(l, r). l \<noteq> int i) (zip (map int [0..<length (xs @ [x])]) (xs @ [x]))) =
     without i xs @ (if length xs = i then [] else [x])"
    using snoc by simp
  consider "i < length xs" | "i = length xs" | "length xs < i" by linarith
  then show ?case
  proof cases
    case 1
    then show ?thesis using step by (simp add: without_def)
  next
    case 2
    then show ?thesis using step by (simp add: without_def)
  next
    case 3
    then show ?thesis using step by (simp add: without_def)
  qed
qed


lemma length_without: "i < length xs \<Longrightarrow> length (without i xs) = length xs - 1"
  by (simp add: without_def)

lemma map_without: "map f (without i xs) = without i (map f xs)"
  by (simp add: without_def take_map drop_map)

lemma label_in_load:
  "index \<in> set (map fst (entries (load_expenses st))) \<longleftrightarrow>
   0 \<le> index \<and> index < int (length (entries (load_expenses st)))"
proof (cases st)
  case None
  then show ?thesis by (simp add: entries_load_None)
next
  case (Some lines)
  have "index \<in> int ` {0..<length lines} \<longleftrightarrow> 0 \<le> index \<and> index < int (length lines)"
  proof
    assume "index \<in> int ` {0..<length lines}"
    then show "0 \<le> index \<and> index < int (length lines)" by auto
  next
    assume a: "0 \<le> index \<and> index < int (length lines)"
    then have "nat index \<in> {0..<length lines}" "int (nat index) = index" by auto
    then show "index \<in> int ` {0..<length lines}" by (metis imageI)
  qed
  then show ?thesis using Some by (simp add: entries_load_Some)
qed

lemma remove_expense_valid:
  assumes "0 \<le> index" "index < int (length (entries (load_expenses st)))"
  shows "remove_expense index st =
         (None, Some (map show_row (without (nat index) (rows (load_expenses st)))))"
proof -
  obtain lines where st: "st = Some lines"
    using assms by (cases st) (auto simp: entries_load_None)
  have 1: "index \<in> set (map fst (entries (load_expenses st)))"
    using assms by (simp only: label_in_load)
  have 2: "map (\<lambda>(i, r). show_row r) es = map show_row (map snd es)" for es :: "(int \<times> row) list"
    by (induction es) auto
  have 3: "map snd (filter (\<lambda>(l, r). l \<noteq> index) (entries (load_expenses st))) =
        without (nat index) (rows (load_expenses st))"
    using filter_label [of "nat index" "map (read_line (column_kind (map fst lines))) lines"] assms(1)
    by (simp add: st entries_load_Some rows_def)
  have "to_csv (load_expenses st\<lparr>entries := filter (\<lambda>(l, r). l \<noteq> index) (entries (load_expenses st))\<rparr>)
        = map show_row (without (nat index) (rows (load_expenses st)))"
    unfolding to_csv_def 2 by (simp add: 3)
  then show ?thesis
    using 1 by (simp add: remove_expense_def drop_frame_def Let_def)
qed

text \<open>
  C7, as amended. For every index that is out of range for the table loaded at the
  call, \<open>remove_expense\<close> raises KeyError (from \<open>drop\<close>) and the store is left as it
  was: the file is not rewritten.
\<close>

theorem remove_expense_out_of_range:
  assumes "index < 0 \<or> int (length (rows (load_expenses st))) \<le> index"
  shows "remove_expense index st = (Some KeyError, st)"
proof -
  have "index \<notin> set (map fst (entries (load_expenses st)))"
    using assms by (simp only: label_in_load rows_def length_map) auto
  then show ?thesis
    by (simp add: remove_expense_def drop_frame_def Let_def)
qed

text \<open>
  C2. For every store and every index that is a position of the table loaded from it,
  \<open>remove_expense\<close> raises nothing, the file it writes holds the records of the rows
  at the other positions, in their order (the row at the index is not written), and the
  table loaded afterwards has exactly one row fewer.
\<close>

theorem remove_then_load:
  assumes "0 \<le> index" "index < int (length (rows (load_expenses st)))"
  shows "fst (remove_expense index st) = None \<and>
         snd (remove_expense index st) =
           Some (map show_row (without (nat index) (rows (load_expenses st)))) \<and>
         length (rows (load_expenses (snd (remove_expense index st)))) =
           length (rows (load_expenses st)) - 1"
proof -
  have r: "remove_expense index st =
         (None, Some (map show_row (without (nat index) (rows (load_expenses st)))))"
    using assms by (simp add: remove_expense_valid rows_def)
  have "nat index < length (rows (load_expenses st))" using assms by simp
  then show ?thesis
    by (simp add: r rows_load_Some length_without)
qed

subsection \<open>Saving\<close>

lemma column_kind_snoc_text: "reads_as_text d \<Longrightarrow> column_kind (col @ [d]) = Texts"
  by (simp add: column_kind_def reads_as_text_def)

lemma read_line_plain:
  "k = Texts \<or> k = AllMissing \<Longrightarrow> read_line k l = read_line Texts l"
  by (cases l) (auto simp: read_line_def read_cell_def)

lemma read_line_new:
  assumes "reads_as_text d" "valid_date t"
  shows "read_line Texts (d, show_number a, show_date t) =
         \<lparr>Description = Text d, Amount = Some a, Date = Some t\<rparr>"
proof -
  have 1: "read_cell Texts d = Text d"
    using assms(1) by (simp add: read_cell_def reads_as_text_def)
  have 2: "to_numeric (na_filter (show_number a)) = Some a"
    using to_numeric_show [of "Some a"] by (simp add: show_amount_def)
  have 3: "to_datetime (na_filter (show_date t)) = Some t"
    using to_datetime_show [of "Some t"] assms(2) by (simp add: show_stamp_def)
  show ?thesis
    by (simp only: read_line_def prod.case 1 2 3)
qed

lemma entries_load_snoc:
  "entries (load_expenses (Some (lines @ [l]))) =
   zip (map int [0..<length lines]) (map (read_line (column_kind (map fst lines @ [fst l]))) lines) @
   [(int (length lines), read_line (column_kind (map fst lines @ [fst l])) l)]"
proof -
  have "zip (map int [0..<length (lines @ [l])]) (map f (lines @ [l])) =
        zip (map int [0..<length lines]) (map f lines) @ [(int (length lines), f l)]" for f :: "line \<Rightarrow> row"
    by simp
  then show ?thesis
    by (simp only: entries_load_Some map_append list.map)
qed


text \<open>
  C1, as amended. For every record whose description the reader keeps as text (it is
  not a missing-value marker, hence not empty, and is neither a numeral nor a boolean,
  in whatever case its letters are), whose amount is a short decimal and whose date is
  valid, and for every tidy store whose Description column is read as text or holds
  missing values only: \<open>save_expense\<close> followed by \<open>load_expenses\<close> yields the rows of
  the table before the save, unchanged and in the same order under the same labels,
  followed by the saved record under the next label.
\<close>

theorem save_then_load:
  assumes "reads_as_text description" "valid_date date"
    and "column_kind (descriptions st) = Texts \<or> column_kind (descriptions st) = AllMissing"
    and "short amount" "tidy st"
  shows "entries (load_expenses (save_expense description amount date st)) =
         entries (load_expenses st) @
         [(int (length (rows (load_expenses st))),
           \<lparr>Description = Text description, Amount = Some amount, Date = Some date\<rparr>)]"
proof -
  let ?new = "(description, show_number amount, show_date date)"
  let ?row = "\<lparr>Description = Text description, Amount = Some amount, Date = Some date\<rparr>"
  have new: "read_line Texts ?new = ?row"
    by (rule read_line_new [OF assms(1,2)])
  show ?thesis
  proof (cases st)
    case None
    have k: "column_kind (map fst [] @ [fst ?new]) = Texts"
      using column_kind_snoc_text [OF assms(1), of "[]"] by simp
    have "entries (load_expenses (Some ([] @ [?new]))) =
          zip (map int [0..<length ([] :: line list)]) (map (read_line Texts) []) @
          [(int (length ([] :: line list)), ?row)]"
      by (simp only: entries_load_snoc k new)
    then have "entries (load_expenses (Some ([] @ [?new]))) = [(0, ?row)]"
      by simp
    moreover have "save_expense description amount date st = Some ([] @ [?new])"
      using None by (simp add: save_expense_def)
    ultimately show ?thesis
      using None by (simp add: entries_load_None rows_def)
  next
    case (Some lines)
    have k: "column_kind (map fst lines @ [fst ?new]) = Texts"
      using column_kind_snoc_text [OF assms(1), of "map fst lines"] by simp
    have old: "map (read_line Texts) lines = map (read_line (column_kind (map fst lines))) lines"
      using assms(3) Some read_line_plain [of "column_kind (map fst lines)"]
      by (simp add: descriptions_def)
    have "entries (load_expenses (Some (lines @ [?new]))) =
          zip (map int [0..<length lines]) (map (read_line Texts) lines) @
          [(int (length lines), ?row)]"
      by (simp only: entries_load_snoc k new)
    then have "entries (load_expenses (Some (lines @ [?new]))) =
          entries (load_expenses (Some lines)) @ [(int (length lines), ?row)]"
      by (simp only: old entries_load_Some)
    moreover have "save_expense description amount date st = Some (lines @ [?new])"
      using Some by (simp add: save_expense_def)
    moreover have "length (rows (load_expenses (Some lines))) = length lines"
      by (simp add: rows_load_Some)
    ultimately show ?thesis
      using Some by simp
  qed
qed

subsection \<open>Filtering\<close>

lemma select_select: "select p (select q f) = select (\<lambda>r. q r \<and> p r) f"
  by (simp add: select_def conj_commute case_prod_unfold)

lemma select_True: "select (\<lambda>r. True) f = f"
  by (simp add: select_def)

lemma select_idem: "select p (select p f) = select p f"
  by (simp add: select_def)

lemma filter_expenses_char:
  "filter_expenses re f p t dr =
     (if p = [] then Inr (select (keeps (\<lambda>c. True) p t dr) f)
      else case str_contains re (desc_dtype f) (map (\<lambda>(l, r). Description r) (entries f)) p of
             Inl e \<Rightarrow> Inl e
           | Inr matches \<Rightarrow> Inr (select (keeps matches p t dr) f))"
  by (auto simp: filter_expenses_def Let_def keeps_def select_def case_prod_unfold
           split: sum.splits intro!: filter_cong)


lemma entries_select: "entries (select p f) = filter (\<lambda>(l, r). p r) (entries f)"
  by (simp add: select_def)

lemma dtype_select: "desc_dtype (select p f) = desc_dtype f" "columns (select p f) = columns f"
  by (simp_all add: select_def)

lemma filter_expenses_select:
  assumes "filter_expenses re f p t dr = Inr g"
  shows "\<exists>q. g = select q f \<and> (p \<noteq> [] \<longrightarrow> (\<forall>r. q r \<longrightarrow> (\<exists>s. Description r = Text s)))"
proof (cases "p = []")
  case True
  then show ?thesis using assms by (auto simp: filter_expenses_char)
next
  case False
  then obtain m where m: "str_contains re (desc_dtype f) (map (\<lambda>(l, r). Description r) (entries f)) p = Inr m"
    and g: "g = select (keeps m p t dr) f"
    using assms by (auto simp: filter_expenses_char split: sum.splits)
  obtain search where "m = match_cell search"
    using m by (auto simp: str_contains_def split: if_splits sum.splits)
  then have "\<forall>r. keeps m p t dr r \<longrightarrow> (\<exists>s. Description r = Text s)"
    using False by (auto simp: keeps_def match_cell_def split: cell.splits)
  then show ?thesis using g by blast
qed

text \<open>
  C9. Whenever \<open>filter_expenses\<close> returns a table, every row of it is a row of the
  table it was given, under the same label and in the same order, and the columns are
  the same. The function works on a copy (\<open>expenses.copy()\<close>) and rebinds a local
  name only; in the embedding it maps a table to a table and has no other effect.
\<close>

theorem filter_expenses_subset:
  assumes "filter_expenses re_compile expenses description_filter amount_filter date_range = Inr result"
  shows "set (entries result) \<subseteq> set (entries expenses) \<and>
         subseq (entries result) (entries expenses) \<and>
         columns result = columns expenses \<and> desc_dtype result = desc_dtype expenses"
proof -
  obtain q where "result = select q expenses"
    using filter_expenses_select [OF assms] by blast
  then show ?thesis
    by (simp add: entries_select dtype_select)
qed

text \<open>
  C5. With the other two criteria off: a threshold that is at most 0 switches the amount
  filter off, and every row stays (also a row whose amount is 0 or missing); a
  threshold above 0 keeps exactly the rows that have an amount and whose amount is at
  most the threshold.
\<close>

theorem filter_by_amount:
  "(num_le amount_filter zero \<longrightarrow>
      filter_expenses re_compile expenses [] amount_filter [] = Inr expenses) \<and>
   (num_less zero amount_filter \<longrightarrow>
      filter_expenses re_compile expenses [] amount_filter [] =
        Inr (select (\<lambda>r. amount_le (Amount r) amount_filter) expenses))"
  by (simp add: filter_expenses_def num_less_def)

lemma amount_le_iff: "amount_le a t \<longleftrightarrow> (\<exists>n. a = Some n \<and> num_le n t)"
  by (cases a) (simp_all add: amount_le_def)

lemma match_cell_iff: "match_cell search c \<longleftrightarrow> (\<exists>s. c = Text s \<and> search s)"
  by (cases c) (simp_all add: match_cell_def)


lemma str_accessor_texts:
  assumes "\<forall>c \<in> set cs. \<exists>s. c = Text s"
  shows "str_accessor Object cs"
proof (cases cs)
  case Nil
  then show ?thesis by (simp add: str_accessor_def present_def)
next
  case (Cons c cs')
  then obtain s where "c = Text s" using assms by auto
  then show ?thesis
    using Cons by (simp add: str_accessor_def present_def is_number_def is_truth_def)
qed

lemma str_contains_Inr:
  assumes "str_contains re t cs p = Inr m"
  shows "t = Object \<and> (\<exists>search. re p = Inr search \<and> m = match_cell search)"
  using assms by (auto simp: str_contains_def str_accessor_def split: if_splits sum.splits)

lemma str_contains_again:
  assumes "str_contains re t cs p = Inr m" "\<forall>c \<in> set cs'. \<exists>s. c = Text s"
  shows "str_contains re t cs' p = Inr m"
proof -
  obtain search where s: "t = Object" "re p = Inr search" "m = match_cell search"
    using str_contains_Inr [OF assms(1)] by blast
  show ?thesis
    using s str_accessor_texts [OF assms(2)] by (simp add: str_contains_def)
qed

text \<open>
  C8. Filtering twice with the same criteria is filtering once: when the first call
  raises, so does the composition, with the same error; when it returns a table, the
  second call returns that table.
\<close>

theorem filter_expenses_idempotent:
  "(case filter_expenses re_compile expenses description_filter amount_filter date_range of
      Inl e \<Rightarrow> Inl e
    | Inr once \<Rightarrow> filter_expenses re_compile once description_filter amount_filter date_range) =
   filter_expenses re_compile expenses description_filter amount_filter date_range"
proof (cases "description_filter = []")
  case True
  then show ?thesis
    by (simp add: filter_expenses_char select_idem)
next
  case False
  let ?cells = "\<lambda>f :: row frame. map (\<lambda>(l, r). Description r) (entries f)"
  show ?thesis
  proof (cases "str_contains re_compile (desc_dtype expenses) (?cells expenses) description_filter")
    case (Inl e)
    then show ?thesis using False by (simp add: filter_expenses_char)
  next
    case (Inr m)
    let ?k = "keeps m description_filter amount_filter date_range"
    have once: "filter_expenses re_compile expenses description_filter amount_filter date_range =
                Inr (select ?k expenses)"
      using False Inr by (simp add: filter_expenses_char)
    obtain search where m: "m = match_cell search"
      using str_contains_Inr [OF Inr] by blast
    have "\<forall>c \<in> set (?cells (select ?k expenses)). \<exists>s. c = Text s"
      using False by (auto simp: entries_select keeps_def m match_cell_def split: cell.splits)
    then have "str_contains re_compile (desc_dtype (select ?k expenses)) (?cells (select ?k expenses))
                 description_filter = Inr m"
      using str_contains_again [OF Inr] by (simp add: dtype_select)
    then have "filter_expenses re_compile (select ?k expenses) description_filter amount_filter
                 date_range = Inr (select ?k expenses)"
      using False by (simp add: filter_expenses_char select_idem)
    then show ?thesis by (simp add: once)
  qed
qed

subsection \<open>Rewriting the file\<close>





lemma parse_bool_cases: "parse_bool s \<noteq> None \<Longrightarrow> \<exists>b. parse_bool s = Some b"
  by auto









lemma set_without: "set (without i xs) \<subseteq> set xs"
  by (auto simp: without_def dest: in_set_takeD in_set_dropD)


lemma to_datetime_valid: "to_datetime c = Some d \<Longrightarrow> valid_date d"
  by (cases c) (auto simp: to_datetime_def dest: parse_date_valid)




lemma remove_then_load_store:
  assumes "0 \<le> index" "index < int (length (rows (load_expenses st)))"
  shows "snd (remove_expense index st) =
           Some (map show_row (without (nat index) (rows (load_expenses st))))"
  using assms by (simp add: remove_expense_valid rows_def)


subsection \<open>Tidy stores\<close>

text \<open>
  The program keeps a store tidy: the record that \<open>save_expense\<close> writes for a short
  amount and a valid date is tidy, and so is every record that \<open>remove_expense\<close> writes
  back for a tidy record.
\<close>

lemma length_padded: "length (padded n k) = max (length (show_nat n)) (Suc k)"
  by (simp add: padded_def)

lemma length_show_unsigned:
  "length (show_unsigned n k) = length (padded n k) + (if k = 0 then 0 else 1)"
  using padded_length [of k n] by (simp add: show_unsigned_def Let_def)

lemma length_show_number:
  assumes "\<bar>m\<bar> < 10 ^ 15" "k \<le> 14"
  shows "length (show_number (Fin m k)) \<le> 17"
proof -
  have "nat \<bar>m\<bar> < 10 ^ 15" using assms(1) by (simp add: nat_less_iff)
  then have "length (show_nat (nat \<bar>m\<bar>)) \<le> 15" by (simp add: length_show_nat)
  then have "length (padded (nat \<bar>m\<bar>) k) \<le> 15" using assms(2) by (simp add: length_padded)
  then have "length (show_unsigned (nat \<bar>m\<bar>) k) \<le> 16"
    unfolding length_show_unsigned by (cases "k = 0") simp_all
  then show ?thesis by (cases "m < 0") (simp_all add: abs_if)
qed

lemma short_numeral_show: "short n \<Longrightarrow> short_numeral (show_number n)"
proof (cases n)
  case (Fin m k)
  assume "short n"
  then have b: "\<bar>m\<bar> < 10 ^ 15" "k \<le> 14" using Fin by (simp_all add: short_def)
  have "parse_number (show_number n) = Some n" by (rule parse_show_number)
  then show ?thesis
    using Fin b length_show_number [OF b] by (simp add: short_numeral_def short_def del: show_number.simps)
qed (simp_all add: short_def)

lemma tidy_line_new:
  assumes "short amount" "valid_date date"
  shows "tidy_line (description, show_number amount, show_date date)"
  using assms by (simp add: tidy_line_def short_numeral_show parse_show_date)

lemma tidy_save_expense:
  assumes "tidy st" "short amount" "valid_date date"
  shows "tidy (save_expense description amount date st)"
  using assms tidy_line_new [OF assms(2,3)]
  by (cases st) (simp_all add: tidy_def save_expense_def)

lemma tidy_line_show_row:
  assumes "tidy_line l"
  shows "tidy_line (show_row (read_line k l))"
proof -
  obtain d a t where l: "l = (d, a, t)" by (cases l) auto
  have a: "is_na (show_amount (to_numeric (na_filter a))) \<or>
           short_numeral (show_amount (to_numeric (na_filter a)))"
  proof (cases "is_na a")
    case True
    then show ?thesis by (simp add: na_filter_def to_numeric_def show_amount_def is_na_Nil)
  next
    case False
    then obtain n where "parse_number a = Some n" "short n"
      using assms l by (auto simp: tidy_line_def short_numeral_def split: option.splits)
    then show ?thesis
      using False by (simp add: na_filter_def to_numeric_def show_amount_def short_numeral_show)
  qed
  have t: "is_na (show_stamp (to_datetime (na_filter t))) \<or>
           parse_date (show_stamp (to_datetime (na_filter t))) \<noteq> None"
  proof (cases "to_datetime (na_filter t)")
    case None
    then show ?thesis by (simp add: show_stamp_def is_na_Nil)
  next
    case (Some x)
    then have "valid_date x" by (rule to_datetime_valid)
    then show ?thesis using Some by (simp add: show_stamp_def parse_show_date)
  qed
  show ?thesis
    using a t by (simp add: l tidy_line_def show_row_def read_line_def)
qed

lemma tidy_remove_expense:
  assumes "tidy st"
  shows "tidy (snd (remove_expense index st))"
proof (cases "0 \<le> index \<and> index < int (length (rows (load_expenses st)))")
  case True
  then obtain lines where st: "st = Some lines"
    by (cases st) (auto simp: rows_def entries_load_None)
  have "snd (remove_expense index st) =
        Some (map show_row (without (nat index) (rows (load_expenses st))))"
    using True by (simp add: remove_then_load_store)
  moreover have "list_all tidy_line (map show_row (without (nat index) (rows (load_expenses st))))"
    using assms set_without [of "nat index" lines]
    by (auto simp: st tidy_def rows_load_Some list_all_iff map_without [symmetric] tidy_line_show_row)
  ultimately show ?thesis by (simp add: tidy_def)
next
  case False
  then have "index \<notin> set (map fst (entries (load_expenses st)))"
    by (simp only: label_in_load rows_def length_map) auto
  then have "remove_expense index st = (Some KeyError, st)"
    by (simp add: remove_expense_def drop_frame_def Let_def)
  then show ?thesis using assms by simp
qed

subsection \<open>Instances of the store theorems\<close>

theorem save_then_load_witness:
  "reads_as_text ''Taxi'' \<and> valid_date \<lparr>year = 2024, month = 1, day = 2\<rparr> \<and>
   column_kind (descriptions (Some [(''Coffee'', ''4.5'', ''2024-01-01'')])) = Texts \<and>
   short (Fin 125 1) \<and> tidy (Some [(''Coffee'', ''4.5'', ''2024-01-01'')]) \<and>
   entries (load_expenses (save_expense ''Taxi'' (Fin 125 1) \<lparr>year = 2024, month = 1, day = 2\<rparr>
              (Some [(''Coffee'', ''4.5'', ''2024-01-01'')]))) =
   entries (load_expenses (Some [(''Coffee'', ''4.5'', ''2024-01-01'')])) @
   [(int (length (rows (load_expenses (Some [(''Coffee'', ''4.5'', ''2024-01-01'')])))),
     \<lparr>Description = Text ''Taxi'', Amount = Some (Fin 125 1),
      Date = Some \<lparr>year = 2024, month = 1, day = 2\<rparr>\<rparr>)]"
proof -
  have h1: "reads_as_text ''Taxi''" by code_simp
  have h2: "valid_date \<lparr>year = 2024, month = 1, day = 2\<rparr>" by code_simp
  have h3: "column_kind (descriptions (Some [(''Coffee'', ''4.5'', ''2024-01-01'')])) = Texts"
    by code_simp
  have h4: "short (Fin 125 1)" by code_simp
  have h5: "tidy (Some [(''Coffee'', ''4.5'', ''2024-01-01'')])" by code_simp
  show ?thesis
    using h1 h2 h3 h4 h5 save_then_load [OF h1 h2 disjI1 [OF h3] h4 h5] by blast
qed

theorem save_then_load_counterexample:
  "''NA'' \<noteq> [] \<and> num_less zero (Fin 50 1) \<and>
   valid_date \<lparr>year = 2024, month = 1, day = 2\<rparr> \<and>
   rows (load_expenses (save_expense ''NA'' (Fin 50 1) \<lparr>year = 2024, month = 1, day = 2\<rparr> None)) =
     [\<lparr>Description = Missing, Amount = Some (Fin 50 1),
       Date = Some \<lparr>year = 2024, month = 1, day = 2\<rparr>\<rparr>] \<and>
   last (rows (load_expenses
           (save_expense ''NA'' (Fin 50 1) \<lparr>year = 2024, month = 1, day = 2\<rparr> None))) \<noteq>
     \<lparr>Description = Text ''NA'', Amount = Some (Fin 50 1),
      Date = Some \<lparr>year = 2024, month = 1, day = 2\<rparr>\<rparr>"
  by code_simp

theorem remove_expense_out_of_range_witness:
  "int (length (rows (load_expenses (Some [(''Coffee'', ''4.5'', ''2024-01-01'')])))) \<le> 5 \<and>
   remove_expense 5 (Some [(''Coffee'', ''4.5'', ''2024-01-01'')]) =
     (Some KeyError, Some [(''Coffee'', ''4.5'', ''2024-01-01'')])"
proof -
  have h: "int (length (rows (load_expenses (Some [(''Coffee'', ''4.5'', ''2024-01-01'')])))) \<le> 5"
    by code_simp
  show ?thesis
    using h remove_expense_out_of_range [OF disjI2 [OF h]] by blast
qed

theorem remove_expense_out_of_range_counterexample:
  "int (length (rows (load_expenses (Some [(''Coffee'', ''4.5'', ''2024-01-01'')])))) \<le> 5 \<and>
   fst (remove_expense 5 (Some [(''Coffee'', ''4.5'', ''2024-01-01'')])) = Some KeyError \<and>
   fst (remove_expense 5 (Some [(''Coffee'', ''4.5'', ''2024-01-01'')])) \<noteq> None"
  by code_simp

theorem remove_then_load_witness:
  "(0::int) \<le> 1 \<and>
   1 < int (length (rows (load_expenses
         (Some [(''Coffee'', ''4.5'', ''2024-01-01''), (''Rent'', ''1200.0'', ''2024-01-05''),
                (''Taxi'', ''12.5'', ''2024-01-02'')])))) \<and>
   fst (remove_expense 1
         (Some [(''Coffee'', ''4.5'', ''2024-01-01''), (''Rent'', ''1200.0'', ''2024-01-05''),
                (''Taxi'', ''12.5'', ''2024-01-02'')])) = None \<and>
   snd (remove_expense 1
         (Some [(''Coffee'', ''4.5'', ''2024-01-01''), (''Rent'', ''1200.0'', ''2024-01-05''),
                (''Taxi'', ''12.5'', ''2024-01-02'')])) =
     Some [(''Coffee'', ''4.5'', ''2024-01-01''), (''Taxi'', ''12.5'', ''2024-01-02'')] \<and>
   length (rows (load_expenses (snd (remove_expense 1
         (Some [(''Coffee'', ''4.5'', ''2024-01-01''), (''Rent'', ''1200.0'', ''2024-01-05''),
                (''Taxi'', ''12.5'', ''2024-01-02'')]))))) = 2"
proof -
  let ?st = "Some [(''Coffee'', ''4.5'', ''2024-01-01''), (''Rent'', ''1200.0'', ''2024-01-05''),
                   (''Taxi'', ''12.5'', ''2024-01-02'')]"
  have h1: "(0::int) \<le> 1" by simp
  have h2: "1 < int (length (rows (load_expenses ?st)))" by code_simp
  have v: "map show_row (without (nat 1) (rows (load_expenses ?st))) =
           [(''Coffee'', ''4.5'', ''2024-01-01''), (''Taxi'', ''12.5'', ''2024-01-02'')]"
    by code_simp
  have n: "length (rows (load_expenses ?st)) - 1 = 2" by code_simp
  note t = remove_then_load [OF h1 h2, unfolded v n]
  show ?thesis
    using h1 h2 t by blast
qed

subsection \<open>Instances of the filter theorems\<close>

theorem filter_expenses_subset_witness:
  "filter_expenses (\<lambda>pat. Inr (sublist pat))
     (load_expenses (Some [(''Coffee'', ''4.5'', ''2024-01-01''), (''Rent'', ''1200.0'', ''2024-01-05'')]))
     ''Rent'' zero [] =
   Inr \<lparr>columns = [''Description'', ''Amount'', ''Date''], desc_dtype = Object,
        entries = [(1, \<lparr>Description = Text ''Rent'', Amount = Some (Fin 12000 1),
                          Date = Some \<lparr>year = 2024, month = 1, day = 5\<rparr>\<rparr>)]\<rparr> \<and>
   set [(1::int, \<lparr>Description = Text ''Rent'', Amount = Some (Fin 12000 1),
               Date = Some \<lparr>year = 2024, month = 1, day = 5\<rparr>\<rparr>)] \<subseteq>
   set (entries (load_expenses
         (Some [(''Coffee'', ''4.5'', ''2024-01-01''), (''Rent'', ''1200.0'', ''2024-01-05'')])))"
proof -
  have h: "filter_expenses (\<lambda>pat. Inr (sublist pat))
     (load_expenses (Some [(''Coffee'', ''4.5'', ''2024-01-01''), (''Rent'', ''1200.0'', ''2024-01-05'')]))
     ''Rent'' zero [] =
   Inr \<lparr>columns = [''Description'', ''Amount'', ''Date''], desc_dtype = Object,
        entries = [(1, \<lparr>Description = Text ''Rent'', Amount = Some (Fin 12000 1),
                          Date = Some \<lparr>year = 2024, month = 1, day = 5\<rparr>\<rparr>)]\<rparr>"
    by code_simp
  show ?thesis
    using h filter_expenses_subset [OF h] by simp
qed

theorem filter_by_amount_witness:
  "num_less zero (Fin 1000 1) \<and>
   filter_expenses (\<lambda>p. Inl ReError)
     (load_expenses (Some [(''Coffee'', ''4.5'', ''2024-01-01''), (''Rent'', ''1200.0'', ''2024-01-05'')]))
     [] (Fin 1000 1) [] =
   Inr (select (\<lambda>r. amount_le (Amount r) (Fin 1000 1))
         (load_expenses (Some [(''Coffee'', ''4.5'', ''2024-01-01''), (''Rent'', ''1200.0'', ''2024-01-05'')]))) \<and>
   rows (select (\<lambda>r. amount_le (Amount r) (Fin 1000 1))
         (load_expenses (Some [(''Coffee'', ''4.5'', ''2024-01-01''), (''Rent'', ''1200.0'', ''2024-01-05'')]))) =
     [\<lparr>Description = Text ''Coffee'', Amount = Some (Fin 45 1),
       Date = Some \<lparr>year = 2024, month = 1, day = 1\<rparr>\<rparr>] \<and>
   num_le zero zero \<and>
   filter_expenses (\<lambda>p. Inl ReError)
     (load_expenses (Some [(''Coffee'', ''0.0'', ''2024-01-01''), (''Rent'', ''oops'', ''2024-01-05'')]))
     [] zero [] =
   Inr (load_expenses (Some [(''Coffee'', ''0.0'', ''2024-01-01''), (''Rent'', ''oops'', ''2024-01-05'')]))"
proof -
  have h1: "num_less zero (Fin 1000 1)" by code_simp
  have h2: "num_le zero zero" by code_simp
  have v: "rows (select (\<lambda>r. amount_le (Amount r) (Fin 1000 1))
         (load_expenses (Some [(''Coffee'', ''4.5'', ''2024-01-01''), (''Rent'', ''1200.0'', ''2024-01-05'')]))) =
     [\<lparr>Description = Text ''Coffee'', Amount = Some (Fin 45 1),
       Date = Some \<lparr>year = 2024, month = 1, day = 1\<rparr>\<rparr>]"
    by code_simp
  show ?thesis
    using h1 h2 v
      filter_by_amount [where amount_filter = "Fin 1000 1" and re_compile = "\<lambda>p. Inl ReError" and
        expenses = "load_expenses (Some [(''Coffee'', ''4.5'', ''2024-01-01''), (''Rent'', ''1200.0'', ''2024-01-05'')])"]
      filter_by_amount [where amount_filter = zero and re_compile = "\<lambda>p. Inl ReError" and
        expenses = "load_expenses (Some [(''Coffee'', ''0.0'', ''2024-01-01''), (''Rent'', ''oops'', ''2024-01-05'')])"]
    by blast
qed

text \<open>
  C6. The table loaded from a file whose only record has the description \<open>NA\<close>: the
  reader takes the field for a missing value, the Description column holds no text and
  is a float column, and a filter that is not empty raises AttributeError, whatever the
  pattern is. The row with the missing description is not left out without an error.
\<close>

theorem filter_by_description_all_missing:
  "rows (load_expenses (Some [(''NA'', ''5.0'', ''2024-01-01'')])) =
     [\<lparr>Description = Missing, Amount = Some (Fin 50 1),
       Date = Some \<lparr>year = 2024, month = 1, day = 1\<rparr>\<rparr>] \<and>
   desc_dtype (load_expenses (Some [(''NA'', ''5.0'', ''2024-01-01'')])) = Numeric \<and>
   filter_expenses re_compile (load_expenses (Some [(''NA'', ''5.0'', ''2024-01-01'')]))
     ''x'' zero [] = Inl AttributeError"
proof -
  let ?t = "load_expenses (Some [(''NA'', ''5.0'', ''2024-01-01'')])"
  have r: "rows ?t = [\<lparr>Description = Missing, Amount = Some (Fin 50 1),
       Date = Some \<lparr>year = 2024, month = 1, day = 1\<rparr>\<rparr>]"
    by code_simp
  have d: "desc_dtype ?t = Numeric" by code_simp
  have "filter_expenses re_compile ?t ''x'' zero [] = Inl AttributeError"
    by (simp add: filter_expenses_def str_contains_def str_accessor_def d)
  then show ?thesis using r d by simp
qed

theorem filter_expenses_idempotent_witness:
  "filter_expenses (\<lambda>pat. Inr (sublist pat))
     (load_expenses (Some [(''Coffee'', ''4.5'', ''2024-01-01''), (''Rent'', ''1200.0'', ''2024-01-05'')]))
     ''Rent'' zero [] =
   Inr \<lparr>columns = [''Description'', ''Amount'', ''Date''], desc_dtype = Object,
        entries = [(1, \<lparr>Description = Text ''Rent'', Amount = Some (Fin 12000 1),
                          Date = Some \<lparr>year = 2024, month = 1, day = 5\<rparr>\<rparr>)]\<rparr> \<and>
   filter_expenses (\<lambda>pat. Inr (sublist pat))
     \<lparr>columns = [''Description'', ''Amount'', ''Date''], desc_dtype = Object,
        entries = [(1, \<lparr>Description = Text ''Rent'', Amount = Some (Fin 12000 1),
                          Date = Some \<lparr>year = 2024, month = 1, day = 5\<rparr>\<rparr>)]\<rparr>
     ''Rent'' zero [] =
   Inr \<lparr>columns = [''Description'', ''Amount'', ''Date''], desc_dtype = Object,
        entries = [(1, \<lparr>Description = Text ''Rent'', Amount = Some (Fin 12000 1),
                          Date = Some \<lparr>year = 2024, month = 1, day = 5\<rparr>\<rparr>)]\<rparr>"
proof -
  have h: "filter_expenses (\<lambda>pat. Inr (sublist pat))
     (load_expenses (Some [(''Coffee'', ''4.5'', ''2024-01-01''), (''Rent'', ''1200.0'', ''2024-01-05'')]))
     ''Rent'' zero [] =
   Inr \<lparr>columns = [''Description'', ''Amount'', ''Date''], desc_dtype = Object,
        entries = [(1, \<lparr>Description = Text ''Rent'', Amount = Some (Fin 12000 1),
                          Date = Some \<lparr>year = 2024, month = 1, day = 5\<rparr>\<rparr>)]\<rparr>"
    by code_simp
  show ?thesis
    using h filter_expenses_idempotent [where re_compile = "\<lambda>pat. Inr (sublist pat)" and
      expenses = "load_expenses (Some [(''Coffee'', ''4.5'', ''2024-01-01''), (''Rent'', ''1200.0'', ''2024-01-05'')])"
      and description_filter = "''Rent''" and amount_filter = zero and date_range = "[]"]
    by simp
qed

subsection \<open>Instances of the rewriting theorem\<close>



end
